theory Spec2Isabelle
  imports Complex_Main
begin

section \<open>Chandelier Exit alert bot: data model\<close>

text \<open>
  The development embeds the two programs of the repository, \<^verbatim>\<open>bot.py\<close> (lists of
  candles, Discord) and \<^verbatim>\<open>chandelierbot.py\<close> (pandas data frame, Telegram).
  Python floats are modelled as \<^typ>\<open>real\<close>: every statement below is about the
  arithmetic the code writes down, not about rounding. The fields of a candle carry the
  prefix \<open>c_\<close> because \<open>open\<close> is a constant of the library.
\<close>

definition ATR_PERIOD :: nat where
  "ATR_PERIOD = 22"

definition HISTORY_LIMIT :: nat where
  "HISTORY_LIMIT = 200"

record Candle =
  c_time :: int
  c_open :: real
  c_high :: real
  c_low :: real
  c_close :: real

datatype py_error = TypeError | ValueError | IndexError | ConnectionError | SendError

section \<open>\<^verbatim>\<open>bot.py\<close>: the trend computation\<close>

text \<open>
  A \<^verbatim>\<open>for i in range(...)\<close> loop whose body may raise: the body is a step function on
  the loop's variables, and the first error ends the loop.
\<close>

fun for_range :: "(nat \<Rightarrow> 's \<Rightarrow> py_error + 's) \<Rightarrow> nat list \<Rightarrow> 's \<Rightarrow> py_error + 's" where
  "for_range body [] s = Inr s"
| "for_range body (i # is) s =
     (case body i s of Inl e \<Rightarrow> Inl e | Inr s' \<Rightarrow> for_range body is s')"

text \<open>Python's \<^verbatim>\<open>xs[a:b]\<close> for \<open>0 \<le> a\<close>, and \<^verbatim>\<open>max(xs)\<close>, \<^verbatim>\<open>min(xs)\<close>, which raise
  ValueError on an empty list.\<close>

definition slice :: "'a list \<Rightarrow> nat \<Rightarrow> nat \<Rightarrow> 'a list" where
  "slice xs a b = drop a (take b xs)"

fun py_max :: "real list \<Rightarrow> py_error + real" where
  "py_max [] = Inl ValueError"
| "py_max (x # xs) = Inr (fold (\<lambda>y m. if y > m then y else m) xs x)"

fun py_min :: "real list \<Rightarrow> py_error + real" where
  "py_min [] = Inl ValueError"
| "py_min (x # xs) = Inr (fold (\<lambda>y m. if y < m then y else m) xs x)"

text \<open>The true range of candle \<open>i\<close> (lines 62 to 67): \<^verbatim>\<open>max\<close> of three arguments keeps the
  first of two equal values, which is the same number.\<close>

definition tr_val :: "real list \<Rightarrow> real list \<Rightarrow> real list \<Rightarrow> nat \<Rightarrow> real" where
  "tr_val highs lows closes i =
     (let prev_close = (if i \<noteq> 0 then closes ! (i - 1) else closes ! 0)
      in max (max (highs ! i - lows ! i) \<bar>highs ! i - prev_close\<bar>) \<bar>lows ! i - prev_close\<bar>)"

text \<open>First loop (lines 60 to 72). The loop variables are \<open>tr\<close> and \<open>atr\<close>; \<open>atr\<close> starts as
  \<^verbatim>\<open>[None] * n\<close>, and arithmetic on \<^verbatim>\<open>None\<close> raises TypeError.\<close>

fun atr_body :: "real list \<Rightarrow> real list \<Rightarrow> real list \<Rightarrow> nat \<Rightarrow>
    real list \<times> real option list \<Rightarrow> py_error + (real list \<times> real option list)" where
  "atr_body highs lows closes i (tr, atr) =
     (let tr' = tr @ [tr_val highs lows closes i] in
      if i = ATR_PERIOD - 1 then
        Inr (tr', atr[i := Some (sum_list (take ATR_PERIOD tr') / real ATR_PERIOD)])
      else if i \<ge> ATR_PERIOD then
        (case atr ! (i - 1) of
           None \<Rightarrow> Inl TypeError
         | Some a \<Rightarrow>
             Inr (tr', atr[i := Some ((a * real (ATR_PERIOD - 1) + tr' ! i) / real ATR_PERIOD)]))
      else Inr (tr', atr))"

definition atr_loop :: "real list \<Rightarrow> real list \<Rightarrow> real list \<Rightarrow> nat \<Rightarrow>
    py_error + (real list \<times> real option list)" where
  "atr_loop highs lows closes n =
     for_range (atr_body highs lows closes) [0..<n] ([], replicate n None)"

text \<open>Second loop (lines 74 to 79). For \<open>i \<ge> ATR_PERIOD - 1\<close> the slice starts at
  \<open>i - ATR_PERIOD + 1 \<ge> 0\<close>, written \<open>i + 1 - ATR_PERIOD\<close> on naturals.\<close>

fun stop_body :: "real list \<Rightarrow> real \<Rightarrow> real option list \<Rightarrow> nat \<Rightarrow>
    real list \<times> real list \<Rightarrow> py_error + (real list \<times> real list)" where
  "stop_body closes atr_mult atr i (long_stop, short_stop) =
     (case py_max (slice closes (i + 1 - ATR_PERIOD) (i + 1)) of
        Inl e \<Rightarrow> Inl e
      | Inr hi_closes \<Rightarrow>
         (case py_min (slice closes (i + 1 - ATR_PERIOD) (i + 1)) of
            Inl e \<Rightarrow> Inl e
          | Inr lo_closes \<Rightarrow>
             (case atr ! i of
                None \<Rightarrow> Inl TypeError
              | Some a \<Rightarrow>
                  Inr (long_stop[i := hi_closes - atr_mult * a],
                       short_stop[i := lo_closes + atr_mult * a]))))"

definition stop_loop :: "real list \<Rightarrow> real \<Rightarrow> real option list \<Rightarrow> nat \<Rightarrow>
    py_error + (real list \<times> real list)" where
  "stop_loop closes atr_mult atr n =
     for_range (stop_body closes atr_mult atr) [ATR_PERIOD - 1..<n]
       (replicate n 0, replicate n 0)"

text \<open>Third loop (lines 81 to 92): the ratchet and the direction. \<open>prev_long\<close> and
  \<open>prev_short\<close> are read before index \<open>i\<close> is written.\<close>

fun trend_body :: "real list \<Rightarrow> real list \<Rightarrow> real list \<Rightarrow> nat \<Rightarrow>
    real list \<times> real list \<times> int list \<Rightarrow> py_error + (real list \<times> real list \<times> int list)" where
  "trend_body closes long_stop short_stop i (long_adj, short_adj, trend) =
     (let prev_long = long_adj ! (i - 1);
          prev_short = short_adj ! (i - 1);
          long_adj' = long_adj[i := (if closes ! (i - 1) > prev_long
                                     then max (long_stop ! i) prev_long else long_stop ! i)];
          short_adj' = short_adj[i := (if closes ! (i - 1) < prev_short
                                       then min (short_stop ! i) prev_short else short_stop ! i)]
      in if closes ! i > prev_short then Inr (long_adj', short_adj', trend @ [1])
         else if closes ! i < prev_long then Inr (long_adj', short_adj', trend @ [- 1])
         else Inr (long_adj', short_adj', trend @ [trend ! (i - 1)]))"

definition trend_loop :: "real list \<Rightarrow> real list \<Rightarrow> real list \<Rightarrow> nat \<Rightarrow>
    py_error + (real list \<times> real list \<times> int list)" where
  "trend_loop closes long_stop short_stop n =
     for_range (trend_body closes long_stop short_stop) [1..<n] (long_stop, short_stop, [1])"

text \<open>All local variables of \<^verbatim>\<open>compute_trend\<close> at its \<^verbatim>\<open>return\<close>.\<close>

record trend_locals =
  tr :: "real list"
  atr :: "real option list"
  long_stop :: "real list"
  short_stop :: "real list"
  long_adj :: "real list"
  short_adj :: "real list"
  trend :: "int list"

definition compute_locals :: "Candle list \<Rightarrow> real \<Rightarrow> py_error + trend_locals" where
  "compute_locals candles atr_mult =
     (let n = length candles;
          closes = map c_close candles;
          highs = map c_high candles;
          lows = map c_low candles
      in case atr_loop highs lows closes n of
           Inl e \<Rightarrow> Inl e
         | Inr (tr1, atr1) \<Rightarrow>
            (case stop_loop closes atr_mult atr1 n of
               Inl e \<Rightarrow> Inl e
             | Inr (ls, ss) \<Rightarrow>
                (case trend_loop closes ls ss n of
                   Inl e \<Rightarrow> Inl e
                 | Inr (la, sa, t) \<Rightarrow>
                     Inr \<lparr>tr = tr1, atr = atr1, long_stop = ls, short_stop = ss,
                          long_adj = la, short_adj = sa, trend = t\<rparr>)))"

definition compute_trend :: "Candle list \<Rightarrow> real \<Rightarrow> py_error + int list" where
  "compute_trend candles atr_mult =
     (case compute_locals candles atr_mult of Inl e \<Rightarrow> Inl e | Inr L \<Rightarrow> Inr (trend L))"

section \<open>\<^verbatim>\<open>bot.py\<close>: Heikin-Ashi candles and the stream\<close>

text \<open>The body of the loop of \<^verbatim>\<open>convert_to_heikin_ashi\<close> (lines 97 to 106);
  \<^verbatim>\<open>ha_candles[-1]\<close> is read only for \<open>i > 0\<close>, when the list is not empty.\<close>

fun ha_body :: "nat \<times> Candle \<Rightarrow> Candle list \<Rightarrow> Candle list" where
  "ha_body (i, c) ha_candles =
     (let ha_open = (if i = 0 then (c_open c + c_close c) / 2
                     else (let prev = last ha_candles in (c_open prev + c_close prev) / 2));
          ha_close = (c_open c + c_high c + c_low c + c_close c) / 4;
          ha_high = max (max (c_high c) ha_open) ha_close;
          ha_low = min (min (c_low c) ha_open) ha_close
      in ha_candles @ [\<lparr>c_time = c_time c, c_open = ha_open, c_high = ha_high,
                         c_low = ha_low, c_close = ha_close\<rparr>])"

definition convert_to_heikin_ashi :: "Candle list \<Rightarrow> Candle list" where
  "convert_to_heikin_ashi candles = fold ha_body (enumerate 0 candles) []"

text \<open>The stream object without its client handle. \<open>candles\<close> is the
  \<^verbatim>\<open>deque(maxlen=HISTORY_LIMIT)\<close>: appending to a full deque discards the oldest element.\<close>

record Stream =
  symbol :: string
  interval :: string
  atr_mult :: real
  use_heikin :: bool
  candles :: "Candle list"
  last_alert :: "int option"

definition deque_append :: "'a list \<Rightarrow> 'a \<Rightarrow> 'a list" where
  "deque_append d x = (if length d = HISTORY_LIMIT then tl d @ [x] else d @ [x])"


record kline =
  k_x :: bool
  k_T :: int
  k_o :: real
  k_h :: real
  k_l :: real
  k_c :: real

definition kline_candle :: "kline \<Rightarrow> Candle" where
  "kline_candle k = \<lparr>c_time = k_T k, c_open = k_o k, c_high = k_h k,
                      c_low = k_l k, c_close = k_c k\<rparr>"



text \<open>The text handed to the notification sink, kept as the values it is formatted from:
  the direction, whether the two-glyph form is used (multiplier 4.0 on the 4h and 1d
  intervals), the symbol, the interval, the candle kind, the closing price and the
  close time.\<close>

record message =
  m_dir :: int
  m_strong :: bool
  m_symbol :: string
  m_interval :: string
  m_heikin :: bool
  m_mult :: real
  m_price :: real
  m_time :: int

text \<open>What one call of \<^verbatim>\<open>on_kline\<close> leaves behind: the stream, the calls made to the
  sink, and the exception it ended with, if any.\<close>

record outcome =
  stream_after :: Stream
  sent :: "message list"
  raised :: "py_error option"

text \<open>Lines 125 to 128: the window that is handed to \<^verbatim>\<open>compute_trend\<close>.\<close>

definition trend_input :: "Stream \<Rightarrow> Candle list" where
  "trend_input self =
     (if use_heikin self then convert_to_heikin_ashi (candles self) else candles self)"

text \<open>\<^verbatim>\<open>Stream.on_kline\<close> (lines 121 to 152). \<open>send_ok\<close> says whether
  \<^verbatim>\<open>send_discord\<close> returns; it has no handler of its own, so a failing send leaves
  \<^verbatim>\<open>on_kline\<close> before \<open>last_alert\<close> is written.\<close>

definition on_kline :: "Stream \<Rightarrow> kline \<Rightarrow> bool \<Rightarrow> outcome" where
  "on_kline self k send_ok =
     (if \<not> k_x k then \<lparr>stream_after = self, sent = [], raised = None\<rparr>
      else
        let self1 = self\<lparr>candles := deque_append (candles self) (kline_candle k)\<rparr>;
            cs = trend_input self1
        in case compute_trend cs (atr_mult self1) of
             Inl e \<Rightarrow> \<lparr>stream_after = self1, sent = [], raised = Some e\<rparr>
           | Inr t \<Rightarrow>
               if length t < 2 then \<lparr>stream_after = self1, sent = [], raised = None\<rparr>
               else
                 let prev_dir = t ! (length t - 2);
                     curr_dir = t ! (length t - 1)
                 in if curr_dir \<noteq> prev_dir \<and> Some curr_dir \<noteq> last_alert self1 then
                      let candle = last cs;
                          msg = \<lparr>m_dir = curr_dir,
                                 m_strong = (atr_mult self1 = 4 \<and> interval self1 \<in> {''4h'', ''1d''}),
                                 m_symbol = symbol self1, m_interval = interval self1,
                                 m_heikin = use_heikin self1, m_mult = atr_mult self1,
                                 m_price = c_close candle, m_time = c_time candle\<rparr>
                      in if send_ok
                         then \<lparr>stream_after = self1\<lparr>last_alert := Some curr_dir\<rparr>,
                               sent = [msg], raised = None\<rparr>
                         else \<lparr>stream_after = self1, sent = [msg], raised = Some SendError\<rparr>
                    else \<lparr>stream_after = self1, sent = [], raised = None\<rparr>)"

text \<open>\<^verbatim>\<open>worker\<close> (lines 155 to 168). The feed is given as what the collaborator does:
  each attempt to open the socket either fails or yields a socket, on which each
  \<^verbatim>\<open>recv\<close> returns a message (with the fate of the send it may cause), returns
  \<^verbatim>\<open>None\<close>, or raises. What the worker does is the list of its actions.\<close>

datatype recv = Msg kline bool | NoMsg | RecvRaises

datatype session = ConnectFails | Connected "recv list"

datatype 'm action = LogConnected | Notify 'm | LogError py_error | Sleep nat

datatype wstate = Connecting | Receiving | Returned | Crashed py_error

fun run_socket :: "Stream \<Rightarrow> recv list \<Rightarrow> Stream \<times> message action list \<times> py_error option" where
  "run_socket s [] = (s, [], None)"
| "run_socket s (NoMsg # rs) = (s, [], Some ConnectionError)"
| "run_socket s (RecvRaises # rs) = (s, [], Some ConnectionError)"
| "run_socket s (Msg k ok # rs) =
     (let r = on_kline s k ok in
      case raised r of
        Some e \<Rightarrow> (stream_after r, map Notify (sent r), Some e)
      | None \<Rightarrow>
          (case run_socket (stream_after r) rs of
             (s', acts, e) \<Rightarrow> (s', map Notify (sent r) @ acts, e)))"

fun worker :: "Stream \<Rightarrow> session list \<Rightarrow> Stream \<times> message action list \<times> wstate" where
  "worker s [] = (s, [], Connecting)"
| "worker s (ConnectFails # ss) =
     (case worker s ss of
        (s', acts, w) \<Rightarrow> (s', [LogError ConnectionError, Sleep 5] @ acts, w))"
| "worker s (Connected rs # ss) =
     (case run_socket s rs of
        (s1, acts1, None) \<Rightarrow> (s1, LogConnected # acts1, Receiving)
      | (s1, acts1, Some e) \<Rightarrow>
          (case worker s1 ss of
             (s', acts, w) \<Rightarrow> (s', LogConnected # acts1 @ [LogError e, Sleep 5] @ acts, w)))"


section \<open>\<^verbatim>\<open>chandelierbot.py\<close>: the data frame, the stream and the worker\<close>

text \<open>
  The data frame \<^verbatim>\<open>self.df\<close> is the list of its rows, each a candle. Names that
  \<^verbatim>\<open>bot.py\<close> also uses carry the suffix \<open>_tg\<close>. \<^verbatim>\<open>compute_trend\<close> of this file is
  built on \<^verbatim>\<open>pandas\<close> and on \<^verbatim>\<open>ta.volatility.AverageTrueRange\<close>, which are not part of
  the repository: the functions below take it as the parameter \<open>trend_of\<close>.
\<close>

text \<open>\<^verbatim>\<open>heikin_ashi\<close> (lines 85 to 96); \<^verbatim>\<open>iloc[0]\<close> raises IndexError on an empty frame.\<close>

definition heikin_ashi :: "Candle list \<Rightarrow> py_error + Candle list" where
  "heikin_ashi df =
     (if df = [] then Inl IndexError
      else
        let ha_close = map (\<lambda>r. (c_open r + c_high r + c_low r + c_close r) / 4) df;
            ha_open = fold (\<lambda>i acc. acc @ [(acc ! (i - 1) + ha_close ! (i - 1)) / 2])
                        [1..<length df] [(c_open (df ! 0) + c_close (df ! 0)) / 2]
        in Inr (map (\<lambda>i. \<lparr>c_time = c_time (df ! i), c_open = ha_open ! i,
                             c_high = max (max (ha_open ! i) (ha_close ! i)) (c_high (df ! i)),
                             c_low = min (min (ha_open ! i) (ha_close ! i)) (c_low (df ! i)),
                             c_close = ha_close ! i\<rparr>) [0..<length df]))"

record Stream_tg =
  symbol_tg :: string
  interval_tg :: string
  heikin :: bool
  atr_mult_tg :: real
  df :: "Candle list"
  last_direction :: "int option"
  last_alert_direction :: "int option"

record message_tg =
  t_dir :: int
  t_symbol :: string
  t_interval :: string
  t_heikin :: bool
  t_price :: real

record outcome_tg =
  stream_after_tg :: Stream_tg
  sent_tg :: "message_tg list"
  send_failures_logged :: nat
  raised_tg :: "py_error option"

text \<open>Lines 142 and 143, and lines 172 and 173: the frame is overwritten with its
  Heikin-Ashi form when the stream is a Heikin-Ashi stream.\<close>

definition store_heikin :: "bool \<Rightarrow> Candle list \<Rightarrow> py_error + Candle list" where
  "store_heikin h d = (if h then heikin_ashi d else Inr d)"


text \<open>Line 170: the new row is appended to the stored frame and the last
  \<open>HISTORY_LIMIT\<close> rows are kept.\<close>

definition append_row :: "Candle list \<Rightarrow> kline \<Rightarrow> Candle list" where
  "append_row d k =
     (let d' = d @ [kline_candle k]
      in drop (length d' - HISTORY_LIMIT) d')"

text \<open>\<^verbatim>\<open>Stream.on_kline\<close> (lines 158 to 188). \<^verbatim>\<open>send_telegram\<close> catches the exception
  of a failing post and logs it, so the lines after the send run either way.
  \<^verbatim>\<open>trend.iloc[-2]\<close> raises IndexError on a trend of length 1.\<close>

definition on_kline_tg :: "(Candle list \<Rightarrow> real \<Rightarrow> py_error + int list) \<Rightarrow>
    Stream_tg \<Rightarrow> kline \<Rightarrow> bool \<Rightarrow> outcome_tg" where
  "on_kline_tg trend_of self k send_ok =
     (if \<not> k_x k
      then \<lparr>stream_after_tg = self, sent_tg = [], send_failures_logged = 0, raised_tg = None\<rparr>
      else
        let d1 = append_row (df self) k in
        case store_heikin (heikin self) d1 of
          Inl e \<Rightarrow> \<lparr>stream_after_tg = self\<lparr>df := d1\<rparr>, sent_tg = [],
                      send_failures_logged = 0, raised_tg = Some e\<rparr>
        | Inr d2 \<Rightarrow>
            let self2 = self\<lparr>df := d2\<rparr> in
            (case trend_of d2 (atr_mult_tg self2) of
               Inl e \<Rightarrow> \<lparr>stream_after_tg = self2, sent_tg = [],
                          send_failures_logged = 0, raised_tg = Some e\<rparr>
             | Inr t \<Rightarrow>
                 if length t < 2
                 then \<lparr>stream_after_tg = self2, sent_tg = [],
                       send_failures_logged = 0, raised_tg = Some IndexError\<rparr>
                 else
                   let curr_dir = t ! (length t - 1);
                       prev_dir = t ! (length t - 2)
                   in if curr_dir \<noteq> prev_dir \<and> Some curr_dir \<noteq> last_alert_direction self2
                      then \<lparr>stream_after_tg =
                              self2\<lparr>last_alert_direction := Some curr_dir,
                                    last_direction := Some curr_dir\<rparr>,
                            sent_tg = [\<lparr>t_dir = curr_dir, t_symbol = symbol_tg self2,
                                       t_interval = interval_tg self2, t_heikin = heikin self2,
                                       t_price = k_c k\<rparr>],
                            send_failures_logged = (if send_ok then 0 else 1),
                            raised_tg = None\<rparr>
                      else \<lparr>stream_after_tg = self2\<lparr>last_direction := Some curr_dir\<rparr>,
                            sent_tg = [], send_failures_logged = 0, raised_tg = None\<rparr>))"

text \<open>\<^verbatim>\<open>stream_worker\<close> (lines 191 to 198): one socket, no handler. A \<^verbatim>\<open>None\<close> message
  leaves the loop and the task returns; an exception leaves the task.\<close>

fun run_socket_tg :: "(Candle list \<Rightarrow> real \<Rightarrow> py_error + int list) \<Rightarrow>
    Stream_tg \<Rightarrow> recv list \<Rightarrow> Stream_tg \<times> message_tg action list \<times> wstate" where
  "run_socket_tg trend_of s [] = (s, [], Receiving)"
| "run_socket_tg trend_of s (NoMsg # rs) = (s, [], Returned)"
| "run_socket_tg trend_of s (RecvRaises # rs) = (s, [], Crashed ConnectionError)"
| "run_socket_tg trend_of s (Msg k ok # rs) =
     (let r = on_kline_tg trend_of s k ok in
      case raised_tg r of
        Some e \<Rightarrow> (stream_after_tg r, map Notify (sent_tg r), Crashed e)
      | None \<Rightarrow>
          (case run_socket_tg trend_of (stream_after_tg r) rs of
             (s', acts, w) \<Rightarrow> (s', map Notify (sent_tg r) @ acts, w)))"

fun stream_worker :: "(Candle list \<Rightarrow> real \<Rightarrow> py_error + int list) \<Rightarrow>
    Stream_tg \<Rightarrow> session \<Rightarrow> Stream_tg \<times> message_tg action list \<times> wstate" where
  "stream_worker trend_of s ConnectFails = (s, [], Crashed ConnectionError)"
| "stream_worker trend_of s (Connected rs) = run_socket_tg trend_of s rs"


section \<open>Example inputs\<close>

text \<open>A quiet market of 22 equal candles followed by one candle that closes far below:
  the first window on which a direction other than the seed is computed.\<close>

definition ex_calm :: Candle where
  "ex_calm = \<lparr>c_time = 0, c_open = 100, c_high = 101, c_low = 99, c_close = 100\<rparr>"

definition ex_fall :: Candle where
  "ex_fall = \<lparr>c_time = 1, c_open = 100, c_high = 100, c_low = 50, c_close = 50\<rparr>"

definition ex_window :: "Candle list" where
  "ex_window = replicate 22 ex_calm @ [ex_fall]"




text \<open>A stream of \<^verbatim>\<open>bot.py\<close> that holds the 22 quiet candles, and the closed-candle event
  of the falling candle: on it the direction flips from \<open>+1\<close> to \<open>-1\<close>.\<close>

definition ex_live :: Stream where
  "ex_live = \<lparr>symbol = ''ETHUSDT'', interval = ''15m'', atr_mult = 3, use_heikin = False,
               candles = replicate 22 ex_calm, last_alert = None\<rparr>"

definition ex_event :: kline where
  "ex_event = \<lparr>k_x = True, k_T = 1, k_o = 100, k_h = 100, k_l = 50, k_c = 50\<rparr>"

text \<open>The same stream in \<^verbatim>\<open>chandelierbot.py\<close>.\<close>

definition ex_live_tg :: Stream_tg where
  "ex_live_tg = \<lparr>symbol_tg = ''ETHUSDT'', interval_tg = ''15m'', heikin = False,
                  atr_mult_tg = 3, df = replicate 22 ex_calm, last_direction = Some 1,
                  last_alert_direction = None\<rparr>"




section \<open>The three loops of the trend computation\<close>

lemma for_range_append:
  "for_range body (xs @ ys) s =
     (case for_range body xs s of Inl e \<Rightarrow> Inl e | Inr s' \<Rightarrow> for_range body ys s')"
  by (induction xs arbitrary: s) (auto split: sum.splits)

lemma for_range_snoc:
  "for_range body xs s = Inr s' \<Longrightarrow> for_range body (xs @ [i]) s = body i s'"
  by (simp add: for_range_append split: sum.splits)

lemma atr_loop_inv:
  "k \<le> n \<Longrightarrow>
   \<exists>tr atr. for_range (atr_body h l c) [0..<k] ([], replicate n None) = Inr (tr, atr)
     \<and> tr = map (tr_val h l c) [0..<k]
     \<and> length atr = n
     \<and> (\<forall>j<n. j < 21 \<or> k \<le> j \<longrightarrow> atr ! j = None)
     \<and> (21 < k \<longrightarrow> atr ! 21 = Some (sum_list (map (tr_val h l c) [0..<22]) / 22))
     \<and> (\<forall>j. 22 \<le> j \<and> j < k \<longrightarrow>
           (\<exists>a. atr ! (j - 1) = Some a \<and> atr ! j = Some ((a * 21 + tr_val h l c j) / 22)))"
proof (induction k)
  case 0
  show ?case by simp
next
  case (Suc k)
  then have kn: "k < n" by simp
  let ?tv = "tr_val h l c"
  from Suc obtain tr atr where
    run: "for_range (atr_body h l c) [0..<k] ([], replicate n None) = Inr (tr, atr)"
    and tr: "tr = map ?tv [0..<k]"
    and len: "length atr = n"
    and none: "\<forall>j<n. j < 21 \<or> k \<le> j \<longrightarrow> atr ! j = None"
    and seed: "21 < k \<longrightarrow> atr ! 21 = Some (sum_list (map ?tv [0..<22]) / 22)"
    and rec: "\<forall>j. 22 \<le> j \<and> j < k \<longrightarrow>
           (\<exists>a. atr ! (j - 1) = Some a \<and> atr ! j = Some ((a * 21 + ?tv j) / 22))"
    by auto
  have step: "for_range (atr_body h l c) [0..<Suc k] ([], replicate n None)
      = atr_body h l c k (tr, atr)"
    using for_range_snoc [OF run, of k] by simp
  have tr': "tr @ [?tv k] = map ?tv [0..<Suc k]" by (simp add: tr)
  consider (lt) "k < 21" | (eq) "k = 21" | (gt) "22 \<le> k" by linarith
  then show ?case
  proof cases
    case lt
    then have "atr_body h l c k (tr, atr) = Inr (tr @ [?tv k], atr)"
      by (simp add: ATR_PERIOD_def)
    with step tr' len none lt show ?thesis by auto
  next
    case eq
    have tk: "take 22 (tr @ [?tv k]) = map ?tv [0..<22]"
      using tr' eq by simp
    have "atr_body h l c k (tr, atr)
        = Inr (tr @ [?tv k], atr[21 := Some (sum_list (map ?tv [0..<22]) / 22)])"
      using eq tk by (simp add: ATR_PERIOD_def Let_def)
    with step tr' len none eq kn show ?thesis
      by (auto simp: nth_list_update)
  next
    case gt
    have prev: "\<exists>a. atr ! (k - 1) = Some a"
    proof (cases "k = 22")
      case True
      with seed have "atr ! (k - 1) = Some (sum_list (map ?tv [0..<22]) / 22)" by simp
      then show ?thesis ..
    next
      case False
      with gt have "22 \<le> k - 1 \<and> k - 1 < k" by simp
      with rec show ?thesis by blast
    qed
    then obtain a where a: "atr ! (k - 1) = Some a" ..
    have nthk: "(tr @ [?tv k]) ! k = ?tv k" by (simp add: tr nth_append)
    have body: "atr_body h l c k (tr, atr)
        = Inr (tr @ [?tv k], atr[k := Some ((a * 21 + ?tv k) / 22)])"
      using gt a nthk by (simp add: ATR_PERIOD_def Let_def)
    have n1: "\<forall>j<n. j < 21 \<or> Suc k \<le> j \<longrightarrow> atr[k := Some ((a * 21 + ?tv k) / 22)] ! j = None"
      using none gt by (auto simp: nth_list_update)
    have n2: "21 < Suc k \<longrightarrow> atr[k := Some ((a * 21 + ?tv k) / 22)] ! 21
        = Some (sum_list (map ?tv [0..<22]) / 22)"
      using seed gt by (auto simp: nth_list_update)
    have n3: "\<forall>j. 22 \<le> j \<and> j < Suc k \<longrightarrow>
           (\<exists>b. atr[k := Some ((a * 21 + ?tv k) / 22)] ! (j - 1) = Some b
              \<and> atr[k := Some ((a * 21 + ?tv k) / 22)] ! j = Some ((b * 21 + ?tv j) / 22))"
    proof (intro allI impI)
      fix j assume j: "22 \<le> j \<and> j < Suc k"
      show "\<exists>b. atr[k := Some ((a * 21 + ?tv k) / 22)] ! (j - 1) = Some b
              \<and> atr[k := Some ((a * 21 + ?tv k) / 22)] ! j = Some ((b * 21 + ?tv j) / 22)"
      proof (cases "j = k")
        case True
        with a kn len gt show ?thesis by (simp add: nth_list_update)
      next
        case False
        with j have jk: "22 \<le> j \<and> j < k" by simp
        with rec obtain b where b: "atr ! (j - 1) = Some b"
          "atr ! j = Some ((b * 21 + ?tv j) / 22)" by blast
        from jk have "j - 1 \<noteq> k" "j \<noteq> k" by arith+
        with b show ?thesis by simp
      qed
    qed
    from step body tr' len n1 n2 n3 show ?thesis by simp
  qed
qed

lemma py_max_ok: "xs \<noteq> [] \<Longrightarrow> \<exists>m. py_max xs = Inr m"
  by (cases xs) auto

lemma py_min_ok: "xs \<noteq> [] \<Longrightarrow> \<exists>m. py_min xs = Inr m"
  by (cases xs) auto

lemma slice_nonempty: "i < length xs \<Longrightarrow> slice xs (i + 1 - ATR_PERIOD) (i + 1) \<noteq> []"
  by (auto simp: slice_def ATR_PERIOD_def)

lemma stop_loop_inv:
  assumes avs: "\<forall>j. 21 \<le> j \<and> j < n \<longrightarrow> av ! j \<noteq> None" and c: "length c = n"
  shows "k \<le> n \<Longrightarrow>
   \<exists>ls ss. for_range (stop_body c m av) [21..<k] (replicate n 0, replicate n 0) = Inr (ls, ss)
     \<and> length ls = n \<and> length ss = n
     \<and> (\<forall>j<n. j < 21 \<or> k \<le> j \<longrightarrow> ls ! j = 0 \<and> ss ! j = 0)
     \<and> (\<forall>j. 21 \<le> j \<and> j < k \<longrightarrow>
           (\<exists>hi lo a. py_max (slice c (j + 1 - 22) (j + 1)) = Inr hi
              \<and> py_min (slice c (j + 1 - 22) (j + 1)) = Inr lo \<and> av ! j = Some a
              \<and> ls ! j = hi - m * a \<and> ss ! j = lo + m * a))"
proof (induction k)
  case 0
  show ?case by simp
next
  case (Suc k)
  then have kn: "k < n" by simp
  from Suc obtain ls ss where
    run: "for_range (stop_body c m av) [21..<k] (replicate n 0, replicate n 0) = Inr (ls, ss)"
    and len: "length ls = n" "length ss = n"
    and zero: "\<forall>j<n. j < 21 \<or> k \<le> j \<longrightarrow> ls ! j = 0 \<and> ss ! j = 0"
    and val: "\<forall>j. 21 \<le> j \<and> j < k \<longrightarrow>
           (\<exists>hi lo a. py_max (slice c (j + 1 - 22) (j + 1)) = Inr hi
              \<and> py_min (slice c (j + 1 - 22) (j + 1)) = Inr lo \<and> av ! j = Some a
              \<and> ls ! j = hi - m * a \<and> ss ! j = lo + m * a)"
    by auto
  show ?case
  proof (cases "21 \<le> k")
    case False
    then have "[21..<Suc k] = []" "[21..<k] = []" by simp_all
    with run len zero False show ?thesis by auto
  next
    case True
    then have upt: "[21..<Suc k] = [21..<k] @ [k]" by simp
    have step: "for_range (stop_body c m av) [21..<Suc k] (replicate n 0, replicate n 0)
        = stop_body c m av k (ls, ss)"
      unfolding upt by (rule for_range_snoc [OF run])
    from kn c have ne: "slice c (k + 1 - ATR_PERIOD) (k + 1) \<noteq> []"
      by (intro slice_nonempty) simp
    from py_max_ok [OF ne] obtain hi where hi: "py_max (slice c (k + 1 - ATR_PERIOD) (k + 1)) = Inr hi" ..
    from py_min_ok [OF ne] obtain lo where lo: "py_min (slice c (k + 1 - ATR_PERIOD) (k + 1)) = Inr lo" ..
    from avs True kn obtain a where a: "av ! k = Some a" by auto
    have body: "stop_body c m av k (ls, ss) = Inr (ls[k := hi - m * a], ss[k := lo + m * a])"
      using hi lo a by simp
    have z: "\<forall>j<n. j < 21 \<or> Suc k \<le> j \<longrightarrow> ls[k := hi - m * a] ! j = 0 \<and> ss[k := lo + m * a] ! j = 0"
      using zero True by (auto simp: nth_list_update)
    have v: "\<forall>j. 21 \<le> j \<and> j < Suc k \<longrightarrow>
           (\<exists>hi' lo' a'. py_max (slice c (j + 1 - 22) (j + 1)) = Inr hi'
              \<and> py_min (slice c (j + 1 - 22) (j + 1)) = Inr lo' \<and> av ! j = Some a'
              \<and> ls[k := hi - m * a] ! j = hi' - m * a' \<and> ss[k := lo + m * a] ! j = lo' + m * a')"
    proof (intro allI impI)
      fix j assume j: "21 \<le> j \<and> j < Suc k"
      show "\<exists>hi' lo' a'. py_max (slice c (j + 1 - 22) (j + 1)) = Inr hi'
              \<and> py_min (slice c (j + 1 - 22) (j + 1)) = Inr lo' \<and> av ! j = Some a'
              \<and> ls[k := hi - m * a] ! j = hi' - m * a' \<and> ss[k := lo + m * a] ! j = lo' + m * a'"
      proof (cases "j = k")
        case True
        with hi lo a kn len show ?thesis by (simp add: ATR_PERIOD_def)
      next
        case False
        with j have "21 \<le> j \<and> j < k" by simp
        with val False show ?thesis by simp
      qed
    qed
    from step body len z v show ?thesis by simp
  qed
qed

lemma trend_loop_inv:
  assumes len: "length ls = n" "length ss = n"
  shows "Suc k \<le> n \<Longrightarrow>
   \<exists>la sa t. for_range (trend_body c ls ss) [1..<Suc k] (ls, ss, [1]) = Inr (la, sa, t)
     \<and> length la = n \<and> length sa = n \<and> length t = Suc k
     \<and> t ! 0 = 1 \<and> la ! 0 = ls ! 0 \<and> sa ! 0 = ss ! 0
     \<and> (\<forall>j. k < j \<and> j < n \<longrightarrow> la ! j = ls ! j \<and> sa ! j = ss ! j)
     \<and> (\<forall>j. 1 \<le> j \<and> j \<le> k \<longrightarrow>
           la ! j = (if c ! (j - 1) > la ! (j - 1) then max (ls ! j) (la ! (j - 1)) else ls ! j)
         \<and> sa ! j = (if c ! (j - 1) < sa ! (j - 1) then min (ss ! j) (sa ! (j - 1)) else ss ! j)
         \<and> t ! j = (if c ! j > sa ! (j - 1) then 1
                    else if c ! j < la ! (j - 1) then - 1 else t ! (j - 1)))
     \<and> set t \<subseteq> {1, - 1}"
proof (induction k)
  case 0
  show ?case using len by simp
next
  case (Suc k)
  then have kn: "Suc k < n" by simp
  from Suc obtain la sa t where
    run: "for_range (trend_body c ls ss) [1..<Suc k] (ls, ss, [1]) = Inr (la, sa, t)"
    and l: "length la = n" "length sa = n" "length t = Suc k"
    and z: "t ! 0 = 1" "la ! 0 = ls ! 0" "sa ! 0 = ss ! 0"
    and rest: "\<forall>j. k < j \<and> j < n \<longrightarrow> la ! j = ls ! j \<and> sa ! j = ss ! j"
    and rec: "\<forall>j. 1 \<le> j \<and> j \<le> k \<longrightarrow>
           la ! j = (if c ! (j - 1) > la ! (j - 1) then max (ls ! j) (la ! (j - 1)) else ls ! j)
         \<and> sa ! j = (if c ! (j - 1) < sa ! (j - 1) then min (ss ! j) (sa ! (j - 1)) else ss ! j)
         \<and> t ! j = (if c ! j > sa ! (j - 1) then 1
                    else if c ! j < la ! (j - 1) then - 1 else t ! (j - 1))"
    and dirs: "set t \<subseteq> {1, - 1}"
    by auto
  let ?i = "Suc k"
  let ?la = "la[?i := (if c ! k > la ! k then max (ls ! ?i) (la ! k) else ls ! ?i)]"
  let ?sa = "sa[?i := (if c ! k < sa ! k then min (ss ! ?i) (sa ! k) else ss ! ?i)]"
  let ?d = "if c ! ?i > sa ! k then 1 else if c ! ?i < la ! k then - 1 else t ! k"
  have upt: "[1..<Suc ?i] = [1..<?i] @ [?i]" by simp
  have step: "for_range (trend_body c ls ss) [1..<Suc ?i] (ls, ss, [1])
      = trend_body c ls ss ?i (la, sa, t)"
    unfolding upt by (rule for_range_snoc [OF run])
  have body: "trend_body c ls ss ?i (la, sa, t) = Inr (?la, ?sa, t @ [?d])"
    by (simp add: Let_def)
  have tk: "t ! k \<in> {1, - 1}" using dirs l(3) by (metis lessI nth_mem subsetD)
  have a1: "length ?la = n \<and> length ?sa = n \<and> length (t @ [?d]) = Suc ?i"
    using l by simp
  have a2: "(t @ [?d]) ! 0 = 1 \<and> ?la ! 0 = ls ! 0 \<and> ?sa ! 0 = ss ! 0"
    using z l by (simp add: nth_append)
  have a3: "\<forall>j. ?i < j \<and> j < n \<longrightarrow> ?la ! j = ls ! j \<and> ?sa ! j = ss ! j"
    using rest by simp
  have a5: "set (t @ [?d]) \<subseteq> {1, - 1}"
    using dirs tk by auto
  have a4: "\<forall>j. 1 \<le> j \<and> j \<le> ?i \<longrightarrow>
           ?la ! j = (if c ! (j - 1) > ?la ! (j - 1) then max (ls ! j) (?la ! (j - 1)) else ls ! j)
         \<and> ?sa ! j = (if c ! (j - 1) < ?sa ! (j - 1) then min (ss ! j) (?sa ! (j - 1)) else ss ! j)
         \<and> (t @ [?d]) ! j = (if c ! j > ?sa ! (j - 1) then 1
                    else if c ! j < ?la ! (j - 1) then - 1 else (t @ [?d]) ! (j - 1))"
  proof (intro allI impI)
    fix j assume j: "1 \<le> j \<and> j \<le> ?i"
    show "?la ! j = (if c ! (j - 1) > ?la ! (j - 1) then max (ls ! j) (?la ! (j - 1)) else ls ! j)
         \<and> ?sa ! j = (if c ! (j - 1) < ?sa ! (j - 1) then min (ss ! j) (?sa ! (j - 1)) else ss ! j)
         \<and> (t @ [?d]) ! j = (if c ! j > ?sa ! (j - 1) then 1
                    else if c ! j < ?la ! (j - 1) then - 1 else (t @ [?d]) ! (j - 1))"
    proof (cases "j = ?i")
      case True
      with kn l show ?thesis by (simp add: nth_append)
    next
      case False
      with j have jk: "1 \<le> j \<and> j \<le> k" by simp
      then have ne: "j \<noteq> ?i" "j - 1 \<noteq> ?i" "j < length t" "j - 1 < length t"
        using l by auto
      from rec jk have
        "la ! j = (if c ! (j - 1) > la ! (j - 1) then max (ls ! j) (la ! (j - 1)) else ls ! j)
         \<and> sa ! j = (if c ! (j - 1) < sa ! (j - 1) then min (ss ! j) (sa ! (j - 1)) else ss ! j)
         \<and> t ! j = (if c ! j > sa ! (j - 1) then 1
                    else if c ! j < la ! (j - 1) then - 1 else t ! (j - 1))" by blast
      with ne show ?thesis by (simp add: nth_append)
    qed
  qed
  from step body a1 a2 a3 a4 a5 show ?case by simp
qed

lemma trend_loop_total:
  assumes len: "length ls = n" "length ss = n"
  shows "\<exists>la sa t. trend_loop c ls ss n = Inr (la, sa, t)
     \<and> length la = n \<and> length sa = n \<and> length t = max 1 n
     \<and> t ! 0 = 1 \<and> la ! 0 = ls ! 0 \<and> sa ! 0 = ss ! 0
     \<and> (\<forall>j. 1 \<le> j \<and> j < n \<longrightarrow>
           la ! j = (if c ! (j - 1) > la ! (j - 1) then max (ls ! j) (la ! (j - 1)) else ls ! j)
         \<and> sa ! j = (if c ! (j - 1) < sa ! (j - 1) then min (ss ! j) (sa ! (j - 1)) else ss ! j)
         \<and> t ! j = (if c ! j > sa ! (j - 1) then 1
                    else if c ! j < la ! (j - 1) then - 1 else t ! (j - 1)))
     \<and> set t \<subseteq> {1, - 1}"
proof (cases n)
  case 0
  then show ?thesis using len by (simp add: trend_loop_def)
next
  case (Suc k)
  then have "Suc k \<le> n" by simp
  from trend_loop_inv [OF len this, of c] obtain la sa t where
    run: "for_range (trend_body c ls ss) [1..<Suc k] (ls, ss, [1]) = Inr (la, sa, t)"
    and l: "length la = n" "length sa = n" "length t = Suc k"
    and z: "t ! 0 = 1" "la ! 0 = ls ! 0" "sa ! 0 = ss ! 0"
    and rec: "\<forall>j. 1 \<le> j \<and> j \<le> k \<longrightarrow>
           la ! j = (if c ! (j - 1) > la ! (j - 1) then max (ls ! j) (la ! (j - 1)) else ls ! j)
         \<and> sa ! j = (if c ! (j - 1) < sa ! (j - 1) then min (ss ! j) (sa ! (j - 1)) else ss ! j)
         \<and> t ! j = (if c ! j > sa ! (j - 1) then 1
                    else if c ! j < la ! (j - 1) then - 1 else t ! (j - 1))"
    and dirs: "set t \<subseteq> {1, - 1}"
    by blast
  have r: "trend_loop c ls ss n = Inr (la, sa, t)"
    using run Suc by (simp add: trend_loop_def)
  have lt: "length t = max 1 n" using l Suc by simp
  have rec': "\<forall>j. 1 \<le> j \<and> j < n \<longrightarrow>
           la ! j = (if c ! (j - 1) > la ! (j - 1) then max (ls ! j) (la ! (j - 1)) else ls ! j)
         \<and> sa ! j = (if c ! (j - 1) < sa ! (j - 1) then min (ss ! j) (sa ! (j - 1)) else ss ! j)
         \<and> t ! j = (if c ! j > sa ! (j - 1) then 1
                    else if c ! j < la ! (j - 1) then - 1 else t ! (j - 1))"
    using rec Suc by (simp add: less_Suc_eq_le)
  from r l(1,2) lt z rec' dirs show ?thesis by blast
qed

lemma atr_loop_total:
  "\<exists>tr1 atr1. atr_loop h l c n = Inr (tr1, atr1)
     \<and> tr1 = map (tr_val h l c) [0..<n]
     \<and> length atr1 = n
     \<and> (\<forall>j<n. j < 21 \<longrightarrow> atr1 ! j = None)
     \<and> (21 < n \<longrightarrow> atr1 ! 21 = Some (sum_list (map (tr_val h l c) [0..<22]) / 22))
     \<and> (\<forall>j. 22 \<le> j \<and> j < n \<longrightarrow>
           (\<exists>a. atr1 ! (j - 1) = Some a \<and> atr1 ! j = Some ((a * 21 + tr_val h l c j) / 22)))"
  using atr_loop_inv [of n n h l c] unfolding atr_loop_def by auto

lemma atr_defined:
  assumes "21 < n \<longrightarrow> av ! 21 = Some s"
    and "\<forall>j. 22 \<le> j \<and> j < n \<longrightarrow> (\<exists>a. av ! (j - 1) = Some a \<and> av ! j = Some (f a j))"
  shows "\<forall>j. 21 \<le> j \<and> j < n \<longrightarrow> av ! j \<noteq> None"
proof (intro allI impI)
  fix j assume j: "21 \<le> j \<and> j < n"
  show "av ! j \<noteq> None"
  proof (cases "j = 21")
    case True
    with assms(1) j show ?thesis by simp
  next
    case False
    with j have "22 \<le> j \<and> j < n" by simp
    with assms(2) show ?thesis by fastforce
  qed
qed

lemma stop_loop_total:
  assumes "\<forall>j. 21 \<le> j \<and> j < n \<longrightarrow> av ! j \<noteq> None" and "length c = n"
  shows "\<exists>ls ss. stop_loop c m av n = Inr (ls, ss)
     \<and> length ls = n \<and> length ss = n
     \<and> (\<forall>j<n. j < 21 \<longrightarrow> ls ! j = 0 \<and> ss ! j = 0)
     \<and> (\<forall>j. 21 \<le> j \<and> j < n \<longrightarrow>
           (\<exists>hi lo a. py_max (slice c (j + 1 - 22) (j + 1)) = Inr hi
              \<and> py_min (slice c (j + 1 - 22) (j + 1)) = Inr lo \<and> av ! j = Some a
              \<and> ls ! j = hi - m * a \<and> ss ! j = lo + m * a))"
  using stop_loop_inv [OF assms, of n m] unfolding stop_loop_def
  by (auto simp: ATR_PERIOD_def)

lemma compute_locals_cases:
  fixes cs :: "Candle list" and m :: real
  defines "n \<equiv> length cs" and "c \<equiv> map c_close cs"
    and "tv \<equiv> tr_val (map c_high cs) (map c_low cs) (map c_close cs)"
  obtains L where "compute_locals cs m = Inr L"
    and "tr L = map tv [0..<n]"
    and "length (atr L) = n"
    and "\<forall>j<n. j < 21 \<longrightarrow> atr L ! j = None"
    and "21 < n \<longrightarrow> atr L ! 21 = Some (sum_list (map tv [0..<22]) / 22)"
    and "\<forall>j. 22 \<le> j \<and> j < n \<longrightarrow>
           (\<exists>a. atr L ! (j - 1) = Some a \<and> atr L ! j = Some ((a * 21 + tv j) / 22))"
    and "length (long_stop L) = n" and "length (short_stop L) = n"
    and "\<forall>j<n. j < 21 \<longrightarrow> long_stop L ! j = 0 \<and> short_stop L ! j = 0"
    and "\<forall>j. 21 \<le> j \<and> j < n \<longrightarrow>
           (\<exists>hi lo a. py_max (slice c (j + 1 - 22) (j + 1)) = Inr hi
              \<and> py_min (slice c (j + 1 - 22) (j + 1)) = Inr lo \<and> atr L ! j = Some a
              \<and> long_stop L ! j = hi - m * a \<and> short_stop L ! j = lo + m * a)"
    and "length (long_adj L) = n" and "length (short_adj L) = n"
    and "length (trend L) = max 1 n"
    and "trend L ! 0 = 1" and "set (trend L) \<subseteq> {1, - 1}"
    and "long_adj L ! 0 = long_stop L ! 0" and "short_adj L ! 0 = short_stop L ! 0"
    and "\<forall>j. 1 \<le> j \<and> j < n \<longrightarrow>
           long_adj L ! j = (if c ! (j - 1) > long_adj L ! (j - 1)
                             then max (long_stop L ! j) (long_adj L ! (j - 1)) else long_stop L ! j)
         \<and> short_adj L ! j = (if c ! (j - 1) < short_adj L ! (j - 1)
                             then min (short_stop L ! j) (short_adj L ! (j - 1)) else short_stop L ! j)
         \<and> trend L ! j = (if c ! j > short_adj L ! (j - 1) then 1
                    else if c ! j < long_adj L ! (j - 1) then - 1 else trend L ! (j - 1))"
proof -
  let ?h = "map c_high cs" and ?l = "map c_low cs"
  from atr_loop_total [of ?h ?l c n] obtain tr1 atr1 where
    a: "atr_loop ?h ?l c n = Inr (tr1, atr1)"
    and a1: "tr1 = map tv [0..<n]"
    and a2: "length atr1 = n"
    and a3: "\<forall>j<n. j < 21 \<longrightarrow> atr1 ! j = None"
    and a4: "21 < n \<longrightarrow> atr1 ! 21 = Some (sum_list (map tv [0..<22]) / 22)"
    and a5: "\<forall>j. 22 \<le> j \<and> j < n \<longrightarrow>
           (\<exists>a. atr1 ! (j - 1) = Some a \<and> atr1 ! j = Some ((a * 21 + tv j) / 22))"
    unfolding tv_def c_def by blast
  have def: "\<forall>j. 21 \<le> j \<and> j < n \<longrightarrow> atr1 ! j \<noteq> None"
    using a4 a5 by (rule atr_defined)
  have cn: "length c = n" by (simp add: c_def n_def)
  from stop_loop_total [OF def cn, of m] obtain ls ss where
    s: "stop_loop c m atr1 n = Inr (ls, ss)"
    and s1: "length ls = n" "length ss = n"
    and s2: "\<forall>j<n. j < 21 \<longrightarrow> ls ! j = 0 \<and> ss ! j = 0"
    and s3: "\<forall>j. 21 \<le> j \<and> j < n \<longrightarrow>
           (\<exists>hi lo a. py_max (slice c (j + 1 - 22) (j + 1)) = Inr hi
              \<and> py_min (slice c (j + 1 - 22) (j + 1)) = Inr lo \<and> atr1 ! j = Some a
              \<and> ls ! j = hi - m * a \<and> ss ! j = lo + m * a)"
    by blast
  from trend_loop_total [OF s1, of c] obtain la sa t where
    t: "trend_loop c ls ss n = Inr (la, sa, t)"
    and t1: "length la = n" "length sa = n" "length t = max 1 n"
    and t2: "t ! 0 = 1" "la ! 0 = ls ! 0" "sa ! 0 = ss ! 0"
    and t3: "\<forall>j. 1 \<le> j \<and> j < n \<longrightarrow>
           la ! j = (if c ! (j - 1) > la ! (j - 1) then max (ls ! j) (la ! (j - 1)) else ls ! j)
         \<and> sa ! j = (if c ! (j - 1) < sa ! (j - 1) then min (ss ! j) (sa ! (j - 1)) else ss ! j)
         \<and> t ! j = (if c ! j > sa ! (j - 1) then 1
                    else if c ! j < la ! (j - 1) then - 1 else t ! (j - 1))"
    and t4: "set t \<subseteq> {1, - 1}"
    by blast
  let ?L = "\<lparr>tr = tr1, atr = atr1, long_stop = ls, short_stop = ss,
             long_adj = la, short_adj = sa, trend = t\<rparr>"
  have r: "compute_locals cs m = Inr ?L"
    using a s t by (simp add: compute_locals_def Let_def c_def n_def)
  show thesis
    by (rule that [of ?L]) (use r a1 a2 a3 a4 a5 s1 s2 s3 t1 t2 t3 t4 in simp_all)
qed

lemma tr_val_candles:
  assumes "i < length cs"
  shows "tr_val (map c_high cs) (map c_low cs) (map c_close cs) i =
     (let prev_close = (if i \<noteq> 0 then c_close (cs ! (i - 1)) else c_close (cs ! 0))
      in max (max (c_high (cs ! i) - c_low (cs ! i)) \<bar>c_high (cs ! i) - prev_close\<bar>)
           \<bar>c_low (cs ! i) - prev_close\<bar>)"
proof -
  from assms have "i - 1 < length cs" "0 < length cs" by arith+
  with assms show ?thesis by (simp add: tr_val_def Let_def)
qed



section \<open>The stream, the worker and the stored window\<close>

lemma ex_window_trend: "compute_trend ex_window 3 = Inr (replicate 22 1 @ [- 1])"
  by code_simp

lemma worker_never_returns: "snd (snd (worker s ss)) \<in> {Connecting, Receiving}"
proof (induction ss arbitrary: s)
  case Nil
  show ?case by simp
next
  case (Cons x ss)
  show ?case
  proof (cases x)
    case ConnectFails
    with Cons [of s] show ?thesis by (auto split: prod.splits)
  next
    case (Connected rs)
    obtain s1 acts1 e where r: "run_socket s rs = (s1, acts1, e)" by (cases "run_socket s rs")
    with Connected Cons [of s1] show ?thesis
      by (cases e) (auto split: prod.splits)
  qed
qed

lemma worker_retry_keeps_stream:
  "worker s (ConnectFails # ss) = (s', acts, w) \<Longrightarrow>
     \<exists>acts'. worker s ss = (s', acts', w) \<and> acts = LogError ConnectionError # Sleep 5 # acts'"
  "worker s (Connected (NoMsg # rs) # ss) = (s', acts, w) \<Longrightarrow>
     \<exists>acts'. worker s ss = (s', acts', w)
        \<and> acts = LogConnected # LogError ConnectionError # Sleep 5 # acts'"
  "worker s (Connected (RecvRaises # rs) # ss) = (s', acts, w) \<Longrightarrow>
     \<exists>acts'. worker s ss = (s', acts', w)
        \<and> acts = LogConnected # LogError ConnectionError # Sleep 5 # acts'"
  by (auto split: prod.splits)

lemma on_kline_keeps_raw:
  "candles (stream_after (on_kline s k ok)) =
     (if k_x k then deque_append (candles s) (kline_candle k) else candles s)"
  by (simp add: on_kline_def Let_def split: sum.splits)

lemma on_kline_tg_df:
  "k_x k \<Longrightarrow> store_heikin (heikin s) (append_row (df s) k) = Inr d \<Longrightarrow>
     df (stream_after_tg (on_kline_tg trend_of s k ok)) = d"
  by (simp add: on_kline_tg_def Let_def split: sum.splits)

section \<open>The example stream at its flip\<close>

lemma ex_live_pushed: "deque_append (candles ex_live) (kline_candle ex_event) = ex_window"
  by (simp add: deque_append_def ex_live_def kline_candle_def ex_event_def ex_window_def
      ex_fall_def HISTORY_LIMIT_def)

lemma ex_live_input: "trend_input (ex_live\<lparr>candles := ex_window\<rparr>) = ex_window"
  by (simp add: trend_input_def ex_live_def)

lemma ex_live_fields:
  "atr_mult ex_live = 3" "last_alert ex_live = None" "symbol ex_live = ''ETHUSDT''"
  "interval ex_live = ''15m''" "use_heikin ex_live = False"
  by (simp_all add: ex_live_def)

lemma ex_window_last: "c_close (last ex_window) = 50" "c_time (last ex_window) = 1"
  by (simp_all add: ex_window_def ex_fall_def)

lemma ex_trend_entries:
  "length (replicate 22 (1::int) @ [- 1]) = 23"
  "(replicate 22 (1::int) @ [- 1]) ! 21 = 1" "(replicate 22 (1::int) @ [- 1]) ! 22 = - 1"
  by (simp_all add: nth_append)

lemma ex_event_closed: "k_x ex_event"
  by (simp add: ex_event_def)

lemma ex_on_kline_send_fails:
  "on_kline ex_live ex_event False =
      \<lparr>stream_after = ex_live\<lparr>candles := ex_window\<rparr>,
       sent = [\<lparr>m_dir = - 1, m_strong = False, m_symbol = ''ETHUSDT'', m_interval = ''15m'',
                m_heikin = False, m_mult = 3, m_price = 50, m_time = 1\<rparr>],
       raised = Some SendError\<rparr>"
  by (simp add: on_kline_def ex_event_closed ex_live_pushed ex_live_input ex_live_fields
      ex_window_last ex_window_trend ex_trend_entries Let_def)

lemma ex_on_kline_send_ok:
  "on_kline ex_live ex_event True =
      \<lparr>stream_after = ex_live\<lparr>candles := ex_window, last_alert := Some (- 1)\<rparr>,
       sent = [\<lparr>m_dir = - 1, m_strong = False, m_symbol = ''ETHUSDT'', m_interval = ''15m'',
                m_heikin = False, m_mult = 3, m_price = 50, m_time = 1\<rparr>],
       raised = None\<rparr>"
  by (simp add: on_kline_def ex_event_closed ex_live_pushed ex_live_input ex_live_fields
      ex_window_last ex_window_trend ex_trend_entries Let_def)

lemma ex_live_tg_row: "append_row (df ex_live_tg) ex_event = ex_window"
  by (simp add: append_row_def ex_live_tg_def kline_candle_def ex_event_def ex_window_def
      ex_fall_def HISTORY_LIMIT_def Let_def)

lemma ex_live_tg_fields:
  "atr_mult_tg ex_live_tg = 3" "last_alert_direction ex_live_tg = None"
  "symbol_tg ex_live_tg = ''ETHUSDT''" "interval_tg ex_live_tg = ''15m''"
  "heikin ex_live_tg = False" "k_c ex_event = 50"
  by (simp_all add: ex_live_tg_def ex_event_def)

lemma ex_on_kline_tg_send_fails:
  "on_kline_tg compute_trend ex_live_tg ex_event False =
      \<lparr>stream_after_tg = ex_live_tg\<lparr>df := ex_window, last_alert_direction := Some (- 1),
                                      last_direction := Some (- 1)\<rparr>,
       sent_tg = [\<lparr>t_dir = - 1, t_symbol = ''ETHUSDT'', t_interval = ''15m'',
                   t_heikin = False, t_price = 50\<rparr>],
       send_failures_logged = 1, raised_tg = None\<rparr>"
  by (simp add: on_kline_tg_def ex_event_closed ex_live_tg_row ex_live_tg_fields
      store_heikin_def ex_window_trend ex_trend_entries Let_def)

section \<open>The claims about the trend engine\<close>

text \<open>
  Claim C10. On every window, the empty one included, \<^verbatim>\<open>compute_trend\<close> of \<^verbatim>\<open>bot.py\<close>
  returns a list of length \<open>max 1 n\<close> that starts with \<open>+1\<close> and holds only \<open>+1\<close> and
  \<open>-1\<close>; on the empty window it returns \<open>[+1]\<close>, which is longer than its input.
\<close>

theorem compute_trend_shape:
  "\<exists>t. compute_trend cs m = Inr t \<and> length t = max 1 (length cs) \<and> hd t = 1
       \<and> set t \<subseteq> {1, - 1}
       \<and> compute_trend [] m = Inr [1] \<and> length [1::int] > length ([]::Candle list)"
proof (rule compute_locals_cases [of cs m])
  fix L
  assume L: "compute_locals cs m = Inr L"
    and len: "length (trend L) = max 1 (length cs)"
    and z: "trend L ! 0 = 1" and d: "set (trend L) \<subseteq> {1, - 1}"
  from len have "trend L \<noteq> []" by auto
  with z have hd: "hd (trend L) = 1" by (simp add: hd_conv_nth)
  have e: "compute_trend [] m = Inr [1]"
    by (simp add: compute_trend_def compute_locals_def atr_loop_def stop_loop_def
        trend_loop_def ATR_PERIOD_def)
  from L len hd d e show ?thesis by (intro exI [of _ "trend L"]) (simp add: compute_trend_def)
qed

theorem compute_trend_shape_witness:
  "\<exists>t. compute_trend ex_window 3 = Inr t \<and> length t = 23 \<and> hd t = 1 \<and> set t \<subseteq> {1, - 1}"
proof -
  have len: "length ex_window = 23" by (simp add: ex_window_def)
  from compute_trend_shape [of ex_window 3] obtain t where
    "compute_trend ex_window 3 = Inr t" "length t = max 1 (length ex_window)"
    "hd t = 1" "set t \<subseteq> {1, - 1}" by blast
  with len show ?thesis by simp
qed

text \<open>
  Claim C2. The direction starts at \<open>+1\<close>; at every index \<open>1 \<le> i < n\<close> it is \<open>+1\<close> if the
  close is above the previous adjusted short stop, else \<open>-1\<close> if the close is below the
  previous adjusted long stop, else the previous direction. Both tests are strict: a close
  equal to the opposing adjusted stop keeps the previous direction.
\<close>

theorem trend_direction_rule:
  "\<exists>L. compute_locals cs m = Inr L \<and> compute_trend cs m = Inr (trend L)
     \<and> trend L ! 0 = 1
     \<and> (\<forall>i. 1 \<le> i \<and> i < length cs \<longrightarrow>
          trend L ! i =
            (if c_close (cs ! i) > short_adj L ! (i - 1) then 1
             else if c_close (cs ! i) < long_adj L ! (i - 1) then - 1
             else trend L ! (i - 1)))
     \<and> (\<forall>i. 1 \<le> i \<and> i < length cs
           \<and> (trend L ! (i - 1) = 1 \<and> c_close (cs ! i) = long_adj L ! (i - 1)
              \<or> trend L ! (i - 1) = - 1 \<and> c_close (cs ! i) = short_adj L ! (i - 1))
          \<longrightarrow> trend L ! i = trend L ! (i - 1))"
proof (rule compute_locals_cases [of cs m])
  fix L
  assume L: "compute_locals cs m = Inr L"
    and z: "trend L ! 0 = 1"
    and rec: "\<forall>j. 1 \<le> j \<and> j < length cs \<longrightarrow>
           long_adj L ! j = (if map c_close cs ! (j - 1) > long_adj L ! (j - 1)
                             then max (long_stop L ! j) (long_adj L ! (j - 1)) else long_stop L ! j)
         \<and> short_adj L ! j = (if map c_close cs ! (j - 1) < short_adj L ! (j - 1)
                             then min (short_stop L ! j) (short_adj L ! (j - 1)) else short_stop L ! j)
         \<and> trend L ! j = (if map c_close cs ! j > short_adj L ! (j - 1) then 1
                    else if map c_close cs ! j < long_adj L ! (j - 1) then - 1 else trend L ! (j - 1))"
  have r: "\<forall>i. 1 \<le> i \<and> i < length cs \<longrightarrow>
          trend L ! i =
            (if c_close (cs ! i) > short_adj L ! (i - 1) then 1
             else if c_close (cs ! i) < long_adj L ! (i - 1) then - 1
             else trend L ! (i - 1))"
  proof (intro allI impI)
    fix i assume i: "1 \<le> i \<and> i < length cs"
    with rec have "trend L ! i = (if map c_close cs ! i > short_adj L ! (i - 1) then 1
                    else if map c_close cs ! i < long_adj L ! (i - 1) then - 1 else trend L ! (i - 1))"
      by blast
    with i show "trend L ! i =
            (if c_close (cs ! i) > short_adj L ! (i - 1) then 1
             else if c_close (cs ! i) < long_adj L ! (i - 1) then - 1
             else trend L ! (i - 1))" by simp
  qed
  have tie: "\<forall>i. 1 \<le> i \<and> i < length cs
           \<and> (trend L ! (i - 1) = 1 \<and> c_close (cs ! i) = long_adj L ! (i - 1)
              \<or> trend L ! (i - 1) = - 1 \<and> c_close (cs ! i) = short_adj L ! (i - 1))
          \<longrightarrow> trend L ! i = trend L ! (i - 1)"
  proof (intro allI impI)
    fix i
    assume a: "1 \<le> i \<and> i < length cs
           \<and> (trend L ! (i - 1) = 1 \<and> c_close (cs ! i) = long_adj L ! (i - 1)
              \<or> trend L ! (i - 1) = - 1 \<and> c_close (cs ! i) = short_adj L ! (i - 1))"
    with r have "trend L ! i =
            (if c_close (cs ! i) > short_adj L ! (i - 1) then 1
             else if c_close (cs ! i) < long_adj L ! (i - 1) then - 1
             else trend L ! (i - 1))" by blast
    with a show "trend L ! i = trend L ! (i - 1)" by (auto split: if_splits)
  qed
  have ct: "compute_trend cs m = Inr (trend L)"
    using L by (simp add: compute_trend_def)
  from L ct z r tie show ?thesis by (intro exI [of _ L] conjI)
qed

theorem trend_direction_rule_witness:
  "(1::nat) \<le> 22 \<and> 22 < length ex_window \<and>
   (\<exists>L. compute_locals ex_window 3 = Inr L \<and>
      trend L ! 22 =
        (if c_close (ex_window ! 22) > short_adj L ! 21 then 1
         else if c_close (ex_window ! 22) < long_adj L ! 21 then - 1
         else trend L ! 21))"
proof -
  have h: "(1::nat) \<le> 22 \<and> 22 < length ex_window" by (simp add: ex_window_def)
  from trend_direction_rule [of ex_window 3] obtain L where
    L: "compute_locals ex_window 3 = Inr L"
    and r: "\<forall>i. 1 \<le> i \<and> i < length ex_window \<longrightarrow>
          trend L ! i =
            (if c_close (ex_window ! i) > short_adj L ! (i - 1) then 1
             else if c_close (ex_window ! i) < long_adj L ! (i - 1) then - 1
             else trend L ! (i - 1))"
    by blast
  from r h have "trend L ! 22 =
        (if c_close (ex_window ! 22) > short_adj L ! (22 - 1) then 1
         else if c_close (ex_window ! 22) < long_adj L ! (22 - 1) then - 1
         else trend L ! (22 - 1))" by blast
  then have "trend L ! 22 =
        (if c_close (ex_window ! 22) > short_adj L ! 21 then 1
         else if c_close (ex_window ! 22) < long_adj L ! 21 then - 1
         else trend L ! 21)" by simp
  with h L show ?thesis by blast
qed

text \<open>
  Claim C3. The adjusted stops start at the raw stops, and at every index \<open>i \<ge> 1\<close> the long
  one is the larger of the raw stop and its predecessor when the previous close is above the
  predecessor, and the raw stop otherwise; the short one is the mirror image with the
  smaller value. The values are those of the loop that runs over the indices in ascending
  order.
\<close>

theorem ratchet_recurrence:
  "\<exists>L. compute_locals cs m = Inr L
     \<and> (0 < length cs \<longrightarrow>
          long_adj L ! 0 = long_stop L ! 0 \<and> short_adj L ! 0 = short_stop L ! 0)
     \<and> (\<forall>i. 1 \<le> i \<and> i < length cs \<longrightarrow>
          long_adj L ! i =
            (if c_close (cs ! (i - 1)) > long_adj L ! (i - 1)
             then max (long_stop L ! i) (long_adj L ! (i - 1)) else long_stop L ! i)
        \<and> short_adj L ! i =
            (if c_close (cs ! (i - 1)) < short_adj L ! (i - 1)
             then min (short_stop L ! i) (short_adj L ! (i - 1)) else short_stop L ! i))"
proof (rule compute_locals_cases [of cs m])
  fix L
  assume L: "compute_locals cs m = Inr L"
    and z: "long_adj L ! 0 = long_stop L ! 0" "short_adj L ! 0 = short_stop L ! 0"
    and rec: "\<forall>j. 1 \<le> j \<and> j < length cs \<longrightarrow>
           long_adj L ! j = (if map c_close cs ! (j - 1) > long_adj L ! (j - 1)
                             then max (long_stop L ! j) (long_adj L ! (j - 1)) else long_stop L ! j)
         \<and> short_adj L ! j = (if map c_close cs ! (j - 1) < short_adj L ! (j - 1)
                             then min (short_stop L ! j) (short_adj L ! (j - 1)) else short_stop L ! j)
         \<and> trend L ! j = (if map c_close cs ! j > short_adj L ! (j - 1) then 1
                    else if map c_close cs ! j < long_adj L ! (j - 1) then - 1 else trend L ! (j - 1))"
  have r: "\<forall>i. 1 \<le> i \<and> i < length cs \<longrightarrow>
          long_adj L ! i =
            (if c_close (cs ! (i - 1)) > long_adj L ! (i - 1)
             then max (long_stop L ! i) (long_adj L ! (i - 1)) else long_stop L ! i)
        \<and> short_adj L ! i =
            (if c_close (cs ! (i - 1)) < short_adj L ! (i - 1)
             then min (short_stop L ! i) (short_adj L ! (i - 1)) else short_stop L ! i)"
  proof (intro allI impI)
    fix i assume i: "1 \<le> i \<and> i < length cs"
    then have "i - 1 < length cs" by arith
    then have m: "map c_close cs ! (i - 1) = c_close (cs ! (i - 1))" by (rule nth_map)
    from rec i have
      "long_adj L ! i = (if map c_close cs ! (i - 1) > long_adj L ! (i - 1)
                             then max (long_stop L ! i) (long_adj L ! (i - 1)) else long_stop L ! i)
         \<and> short_adj L ! i = (if map c_close cs ! (i - 1) < short_adj L ! (i - 1)
                             then min (short_stop L ! i) (short_adj L ! (i - 1)) else short_stop L ! i)"
      by blast
    then show "long_adj L ! i =
            (if c_close (cs ! (i - 1)) > long_adj L ! (i - 1)
             then max (long_stop L ! i) (long_adj L ! (i - 1)) else long_stop L ! i)
        \<and> short_adj L ! i =
            (if c_close (cs ! (i - 1)) < short_adj L ! (i - 1)
             then min (short_stop L ! i) (short_adj L ! (i - 1)) else short_stop L ! i)"
      unfolding m .
  qed
  from z have z': "0 < length cs \<longrightarrow>
          long_adj L ! 0 = long_stop L ! 0 \<and> short_adj L ! 0 = short_stop L ! 0" by simp
  from L z' r show ?thesis by (intro exI [of _ L] conjI)
qed

theorem ratchet_recurrence_witness:
  "(1::nat) \<le> 22 \<and> 22 < length ex_window \<and>
   (\<exists>L. compute_locals ex_window 3 = Inr L \<and>
      long_adj L ! 0 = long_stop L ! 0 \<and>
      long_adj L ! 22 =
        (if c_close (ex_window ! 21) > long_adj L ! 21
         then max (long_stop L ! 22) (long_adj L ! 21) else long_stop L ! 22))"
proof -
  have h: "(1::nat) \<le> 22 \<and> 22 < length ex_window" by (simp add: ex_window_def)
  have p: "0 < length ex_window" by (simp add: ex_window_def)
  from ratchet_recurrence [of ex_window 3] obtain L where
    L: "compute_locals ex_window 3 = Inr L"
    and z: "0 < length ex_window \<longrightarrow>
          long_adj L ! 0 = long_stop L ! 0 \<and> short_adj L ! 0 = short_stop L ! 0"
    and r: "\<forall>i. 1 \<le> i \<and> i < length ex_window \<longrightarrow>
          long_adj L ! i =
            (if c_close (ex_window ! (i - 1)) > long_adj L ! (i - 1)
             then max (long_stop L ! i) (long_adj L ! (i - 1)) else long_stop L ! i)
        \<and> short_adj L ! i =
            (if c_close (ex_window ! (i - 1)) < short_adj L ! (i - 1)
             then min (short_stop L ! i) (short_adj L ! (i - 1)) else short_stop L ! i)"
    by blast
  from z p have z0: "long_adj L ! 0 = long_stop L ! 0" by blast
  from r h have "long_adj L ! 22 =
            (if c_close (ex_window ! (22 - 1)) > long_adj L ! (22 - 1)
             then max (long_stop L ! 22) (long_adj L ! (22 - 1)) else long_stop L ! 22)"
    by blast
  then have "long_adj L ! 22 =
        (if c_close (ex_window ! 21) > long_adj L ! 21
         then max (long_stop L ! 22) (long_adj L ! 21) else long_stop L ! 22)" by simp
  with h L z0 show ?thesis by blast
qed

text \<open>
  Claim C4. With period 22, the true range at index \<open>i\<close> is the largest of high minus low
  and the distances of high and low from the previous close, the close of index 0 standing
  in for the missing one at index 0; \<open>atr\<close> is \<^verbatim>\<open>None\<close> below index 21, the mean of the
  first 22 true ranges at index 21, and Wilder's smoothing of its predecessor from index 22
  on.
\<close>

theorem wilder_atr:
  "\<exists>L. compute_locals cs m = Inr L
     \<and> length (tr L) = length cs \<and> length (atr L) = length cs
     \<and> (\<forall>i<length cs. tr L ! i =
          (let prev_close = (if i \<noteq> 0 then c_close (cs ! (i - 1)) else c_close (cs ! 0))
           in max (max (c_high (cs ! i) - c_low (cs ! i)) \<bar>c_high (cs ! i) - prev_close\<bar>)
                \<bar>c_low (cs ! i) - prev_close\<bar>))
     \<and> (\<forall>i<length cs. i < ATR_PERIOD - 1 \<longrightarrow> atr L ! i = None)
     \<and> (ATR_PERIOD - 1 < length cs \<longrightarrow>
          atr L ! (ATR_PERIOD - 1) = Some (sum_list (take ATR_PERIOD (tr L)) / real ATR_PERIOD))
     \<and> (\<forall>i. ATR_PERIOD \<le> i \<and> i < length cs \<longrightarrow>
          (\<exists>a. atr L ! (i - 1) = Some a
             \<and> atr L ! i = Some ((a * real (ATR_PERIOD - 1) + tr L ! i) / real ATR_PERIOD)))"
proof (rule compute_locals_cases [of cs m])
  fix L
  let ?tv = "tr_val (map c_high cs) (map c_low cs) (map c_close cs)"
  assume L: "compute_locals cs m = Inr L"
    and t: "tr L = map ?tv [0..<length cs]"
    and la: "length (atr L) = length cs"
    and none: "\<forall>j<length cs. j < 21 \<longrightarrow> atr L ! j = None"
    and seed: "21 < length cs \<longrightarrow> atr L ! 21 = Some (sum_list (map ?tv [0..<22]) / 22)"
    and rec: "\<forall>j. 22 \<le> j \<and> j < length cs \<longrightarrow>
           (\<exists>a. atr L ! (j - 1) = Some a \<and> atr L ! j = Some ((a * 21 + ?tv j) / 22))"
  have lt: "length (tr L) = length cs" by (simp add: t)
  have nth: "\<And>i. i < length cs \<Longrightarrow> tr L ! i = ?tv i" by (simp add: t)
  have c1: "\<forall>i<length cs. tr L ! i =
          (let prev_close = (if i \<noteq> 0 then c_close (cs ! (i - 1)) else c_close (cs ! 0))
           in max (max (c_high (cs ! i) - c_low (cs ! i)) \<bar>c_high (cs ! i) - prev_close\<bar>)
                \<bar>c_low (cs ! i) - prev_close\<bar>)"
  proof (intro allI impI)
    fix i assume i: "i < length cs"
    from nth [OF i] tr_val_candles [OF i] show "tr L ! i =
          (let prev_close = (if i \<noteq> 0 then c_close (cs ! (i - 1)) else c_close (cs ! 0))
           in max (max (c_high (cs ! i) - c_low (cs ! i)) \<bar>c_high (cs ! i) - prev_close\<bar>)
                \<bar>c_low (cs ! i) - prev_close\<bar>)" by (rule trans)
  qed
  have c2: "\<forall>i<length cs. i < ATR_PERIOD - 1 \<longrightarrow> atr L ! i = None"
    using none by (simp add: ATR_PERIOD_def)
  have c3: "ATR_PERIOD - 1 < length cs \<longrightarrow>
          atr L ! (ATR_PERIOD - 1) = Some (sum_list (take ATR_PERIOD (tr L)) / real ATR_PERIOD)"
  proof
    assume "ATR_PERIOD - 1 < length cs"
    then have n: "21 < length cs" by (simp add: ATR_PERIOD_def)
    then have "take 22 (tr L) = map ?tv [0..<22]"
      by (simp add: t take_map min_def)
    with seed n show "atr L ! (ATR_PERIOD - 1)
        = Some (sum_list (take ATR_PERIOD (tr L)) / real ATR_PERIOD)"
      by (simp add: ATR_PERIOD_def)
  qed
  have c4: "\<forall>i. ATR_PERIOD \<le> i \<and> i < length cs \<longrightarrow>
          (\<exists>a. atr L ! (i - 1) = Some a
             \<and> atr L ! i = Some ((a * real (ATR_PERIOD - 1) + tr L ! i) / real ATR_PERIOD))"
  proof (intro allI impI)
    fix i assume i: "ATR_PERIOD \<le> i \<and> i < length cs"
    then have "22 \<le> i \<and> i < length cs" by (simp add: ATR_PERIOD_def)
    with rec obtain a where "atr L ! (i - 1) = Some a"
      "atr L ! i = Some ((a * 21 + ?tv i) / 22)" by blast
    with i nth show "\<exists>a. atr L ! (i - 1) = Some a
             \<and> atr L ! i = Some ((a * real (ATR_PERIOD - 1) + tr L ! i) / real ATR_PERIOD)"
      by (simp add: ATR_PERIOD_def)
  qed
  from L lt la c1 c2 c3 c4 show ?thesis by (intro exI [of _ L] conjI)
qed

theorem wilder_atr_witness:
  "(0::nat) < length ex_window \<and> (0::nat) < ATR_PERIOD - 1
   \<and> ATR_PERIOD - 1 < length ex_window \<and> ATR_PERIOD \<le> 22 \<and> 22 < length ex_window
   \<and> (\<exists>L. compute_locals ex_window 3 = Inr L \<and> tr L ! 22 = 50 \<and> atr L ! 0 = None
        \<and> atr L ! (ATR_PERIOD - 1) = Some (sum_list (take ATR_PERIOD (tr L)) / real ATR_PERIOD)
        \<and> (\<exists>a. atr L ! (22 - 1) = Some a
              \<and> atr L ! 22 = Some ((a * real (ATR_PERIOD - 1) + tr L ! 22) / real ATR_PERIOD)))"
proof -
  have h: "(0::nat) < length ex_window" "(0::nat) < ATR_PERIOD - 1"
    "ATR_PERIOD - 1 < length ex_window" "ATR_PERIOD \<le> 22 \<and> 22 < length ex_window"
    "22 < length ex_window"
    by (simp_all add: ex_window_def ATR_PERIOD_def)
  from wilder_atr [of ex_window 3] obtain L where
    L: "compute_locals ex_window 3 = Inr L"
    and t: "\<forall>i<length ex_window. tr L ! i =
          (let prev_close = (if i \<noteq> 0 then c_close (ex_window ! (i - 1))
                             else c_close (ex_window ! 0))
           in max (max (c_high (ex_window ! i) - c_low (ex_window ! i))
                     \<bar>c_high (ex_window ! i) - prev_close\<bar>)
                \<bar>c_low (ex_window ! i) - prev_close\<bar>)"
    and none: "\<forall>i<length ex_window. i < ATR_PERIOD - 1 \<longrightarrow> atr L ! i = None"
    and seed: "ATR_PERIOD - 1 < length ex_window \<longrightarrow>
          atr L ! (ATR_PERIOD - 1) = Some (sum_list (take ATR_PERIOD (tr L)) / real ATR_PERIOD)"
    and rec: "\<forall>i. ATR_PERIOD \<le> i \<and> i < length ex_window \<longrightarrow>
          (\<exists>a. atr L ! (i - 1) = Some a
             \<and> atr L ! i = Some ((a * real (ATR_PERIOD - 1) + tr L ! i) / real ATR_PERIOD))"
    by blast
  from t h(5) have "tr L ! 22 =
          (let prev_close = (if (22::nat) \<noteq> 0 then c_close (ex_window ! (22 - 1))
                             else c_close (ex_window ! 0))
           in max (max (c_high (ex_window ! 22) - c_low (ex_window ! 22))
                     \<bar>c_high (ex_window ! 22) - prev_close\<bar>)
                \<bar>c_low (ex_window ! 22) - prev_close\<bar>)" by blast
  then have t22: "tr L ! 22 = 50"
    by (simp add: ex_window_def nth_append ex_calm_def ex_fall_def)
  from none h(1,2) have a0: "atr L ! 0 = None" by blast
  from seed h(3) have a21: "atr L ! (ATR_PERIOD - 1)
      = Some (sum_list (take ATR_PERIOD (tr L)) / real ATR_PERIOD)" by blast
  from rec h(4) have a22: "\<exists>a. atr L ! (22 - 1) = Some a
      \<and> atr L ! 22 = Some ((a * real (ATR_PERIOD - 1) + tr L ! 22) / real ATR_PERIOD)"
    by blast
  from L t22 a0 a21 a22 have "\<exists>L. compute_locals ex_window 3 = Inr L \<and> tr L ! 22 = 50
        \<and> atr L ! 0 = None
        \<and> atr L ! (ATR_PERIOD - 1) = Some (sum_list (take ATR_PERIOD (tr L)) / real ATR_PERIOD)
        \<and> (\<exists>a. atr L ! (22 - 1) = Some a
              \<and> atr L ! 22 = Some ((a * real (ATR_PERIOD - 1) + tr L ! 22) / real ATR_PERIOD))"
    by (intro exI [of _ L] conjI)
  with h show ?thesis by blast
qed



section \<open>The claims about the stream and the worker\<close>

text \<open>
  Claim C1. On a closed-candle event for which the trend has at least two entries, a
  notification is dispatched if and only if the new direction differs from the previous
  one and from the direction of the last alert; at most one is dispatched and it carries
  the new direction; the direction of the last alert changes only when a notification was
  dispatched, and then to the new direction; a flip onto the direction of the last alert
  dispatches nothing. This holds for \<^verbatim>\<open>on_kline\<close> of both files.
\<close>

theorem alert_iff_new_flip:
  assumes closed: "k_x k"
    and t: "compute_trend
              (trend_input (self\<lparr>candles := deque_append (candles self) (kline_candle k)\<rparr>))
              (atr_mult self) = Inr t"
    and len: "2 \<le> length t"
    and d: "store_heikin (heikin s) (append_row (df s) k) = Inr d"
    and u: "trend_of d (atr_mult_tg s) = Inr u"
    and ulen: "2 \<le> length u"
  shows "(sent (on_kline self k ok) \<noteq> [] \<longleftrightarrow>
            last t \<noteq> t ! (length t - 2) \<and> Some (last t) \<noteq> last_alert self)
     \<and> length (sent (on_kline self k ok)) \<le> 1
     \<and> map m_dir (sent (on_kline self k ok)) = replicate (length (sent (on_kline self k ok))) (last t)
     \<and> last_alert (stream_after (on_kline self k ok)) =
          (if sent (on_kline self k ok) \<noteq> [] \<and> ok then Some (last t) else last_alert self)
     \<and> (last_alert self = Some (last t) \<longrightarrow> sent (on_kline self k ok) = [])
     \<and> (sent_tg (on_kline_tg trend_of s k ok) \<noteq> [] \<longleftrightarrow>
            last u \<noteq> u ! (length u - 2) \<and> Some (last u) \<noteq> last_alert_direction s)
     \<and> length (sent_tg (on_kline_tg trend_of s k ok)) \<le> 1
     \<and> last_alert_direction (stream_after_tg (on_kline_tg trend_of s k ok)) =
          (if sent_tg (on_kline_tg trend_of s k ok) \<noteq> [] then Some (last u)
           else last_alert_direction s)
     \<and> (last_alert_direction s = Some (last u) \<longrightarrow> sent_tg (on_kline_tg trend_of s k ok) = [])"
proof -
  from len have "t \<noteq> []" by auto
  with len have lt: "last t = t ! (length t - 1)" "\<not> length t < 2"
    by (simp_all add: last_conv_nth)
  from ulen have "u \<noteq> []" by auto
  with ulen have lu: "last u = u ! (length u - 1)" "\<not> length u < 2"
    by (simp_all add: last_conv_nth)
  have bot: "(sent (on_kline self k ok) \<noteq> [] \<longleftrightarrow>
            last t \<noteq> t ! (length t - 2) \<and> Some (last t) \<noteq> last_alert self)
     \<and> length (sent (on_kline self k ok)) \<le> 1
     \<and> map m_dir (sent (on_kline self k ok)) = replicate (length (sent (on_kline self k ok))) (last t)
     \<and> last_alert (stream_after (on_kline self k ok)) =
          (if sent (on_kline self k ok) \<noteq> [] \<and> ok then Some (last t) else last_alert self)
     \<and> (last_alert self = Some (last t) \<longrightarrow> sent (on_kline self k ok) = [])"
    using closed t lt by (simp add: on_kline_def Let_def)
  have tg: "(sent_tg (on_kline_tg trend_of s k ok) \<noteq> [] \<longleftrightarrow>
            last u \<noteq> u ! (length u - 2) \<and> Some (last u) \<noteq> last_alert_direction s)
     \<and> length (sent_tg (on_kline_tg trend_of s k ok)) \<le> 1
     \<and> last_alert_direction (stream_after_tg (on_kline_tg trend_of s k ok)) =
          (if sent_tg (on_kline_tg trend_of s k ok) \<noteq> [] then Some (last u)
           else last_alert_direction s)
     \<and> (last_alert_direction s = Some (last u) \<longrightarrow> sent_tg (on_kline_tg trend_of s k ok) = [])"
    using closed d u lu by (simp add: on_kline_tg_def Let_def)
  from bot tg show ?thesis by simp
qed

theorem alert_iff_new_flip_witness:
  "k_x ex_event \<and> (2::nat) \<le> length (replicate 22 (1::int) @ [- 1])
   \<and> length (sent (on_kline ex_live ex_event True)) = 1
   \<and> last_alert (stream_after (on_kline ex_live ex_event True)) = Some (- 1)
   \<and> length (sent_tg (on_kline_tg compute_trend ex_live_tg ex_event True)) = 1
   \<and> last_alert_direction (stream_after_tg (on_kline_tg compute_trend ex_live_tg ex_event True))
        = Some (- 1)"
proof -
  let ?t = "replicate 22 (1::int) @ [- 1]"
  have len: "2 \<le> length ?t" by simp
  have t: "compute_trend
      (trend_input (ex_live\<lparr>candles := deque_append (candles ex_live) (kline_candle ex_event)\<rparr>))
      (atr_mult ex_live) = Inr ?t"
    by (simp only: ex_live_pushed ex_live_input ex_live_fields ex_window_trend)
  have d: "store_heikin (heikin ex_live_tg) (append_row (df ex_live_tg) ex_event) = Inr ex_window"
    by (simp add: store_heikin_def ex_live_tg_fields ex_live_tg_row)
  have u: "compute_trend ex_window (atr_mult_tg ex_live_tg) = Inr ?t"
    by (simp only: ex_live_tg_fields ex_window_trend)
  have e: "last ?t = - 1" "?t ! (length ?t - 2) = 1" by (simp_all add: nth_append)
  note r = alert_iff_new_flip [where trend_of = compute_trend and d = ex_window
      and ok = True, OF ex_event_closed t len d u len]
  from r have s1: "sent (on_kline ex_live ex_event True) \<noteq> []"
    by (simp add: e ex_trend_entries ex_live_fields)
  from r have "length (sent (on_kline ex_live ex_event True)) \<le> 1" by blast
  with s1 have c1: "length (sent (on_kline ex_live ex_event True)) = 1"
    by (cases "sent (on_kline ex_live ex_event True)") simp_all
  from r s1 have c2: "last_alert (stream_after (on_kline ex_live ex_event True)) = Some (- 1)"
    by (simp add: e ex_trend_entries)
  from r have s2: "sent_tg (on_kline_tg compute_trend ex_live_tg ex_event True) \<noteq> []"
    by (simp add: e ex_trend_entries ex_live_tg_fields)
  from r have "length (sent_tg (on_kline_tg compute_trend ex_live_tg ex_event True)) \<le> 1"
    by blast
  with s2 have c3: "length (sent_tg (on_kline_tg compute_trend ex_live_tg ex_event True)) = 1"
    by (cases "sent_tg (on_kline_tg compute_trend ex_live_tg ex_event True)") simp_all
  from r s2 have c4: "last_alert_direction
      (stream_after_tg (on_kline_tg compute_trend ex_live_tg ex_event True)) = Some (- 1)"
    by (simp add: e ex_trend_entries)
  from ex_event_closed len c1 c2 c3 c4 show ?thesis by blast
qed


text \<open>
  Claim C8, at a failing input of \<^verbatim>\<open>chandelierbot.py\<close>. When the first \<^verbatim>\<open>recv\<close> returns
  \<^verbatim>\<open>None\<close>, \<^verbatim>\<open>stream_worker\<close> returns without a log line, a delay or a new socket, and
  when the socket cannot be opened the exception leaves the task. On the same feed
  \<^verbatim>\<open>worker\<close> of \<^verbatim>\<open>bot.py\<close> logs the error, sleeps 5 seconds and goes back to connecting,
  with the stream unchanged.
\<close>

theorem stream_worker_returns_on_none:
  "stream_worker compute_trend ex_live_tg (Connected [NoMsg]) = (ex_live_tg, [], Returned)
   \<and> stream_worker compute_trend ex_live_tg ConnectFails = (ex_live_tg, [], Crashed ConnectionError)
   \<and> worker ex_live [Connected [NoMsg]]
        = (ex_live, [LogConnected, LogError ConnectionError, Sleep 5], Connecting)"
  by simp

text \<open>
  Claim C9, at a failing input of \<^verbatim>\<open>bot.py\<close>. On the event that flips the direction,
  a failing \<^verbatim>\<open>send_discord\<close> ends \<^verbatim>\<open>on_kline\<close> with the exception: the direction of the
  last alert stays unset (it is set when the send succeeds), and the worker takes the
  exception for a feed failure, logs it, sleeps and reconnects. On the same event
  \<^verbatim>\<open>on_kline\<close> of \<^verbatim>\<open>chandelierbot.py\<close> logs the failed send and goes on.
\<close>

theorem send_failure_leaves_on_kline:
  "raised (on_kline ex_live ex_event False) = Some SendError
   \<and> map m_dir (sent (on_kline ex_live ex_event False)) = [- 1]
   \<and> last_alert (stream_after (on_kline ex_live ex_event False)) = None
   \<and> last_alert (stream_after (on_kline ex_live ex_event True)) = Some (- 1)
   \<and> snd (snd (worker ex_live [Connected [Msg ex_event False]])) = Connecting
   \<and> map (\<lambda>a. case a of Notify m \<Rightarrow> Notify (m_dir m) | LogConnected \<Rightarrow> LogConnected
                | LogError e \<Rightarrow> LogError e | Sleep n \<Rightarrow> Sleep n)
        (fst (snd (worker ex_live [Connected [Msg ex_event False]])))
        = [LogConnected, Notify (- 1), LogError SendError, Sleep 5]
   \<and> raised_tg (on_kline_tg compute_trend ex_live_tg ex_event False) = None
   \<and> send_failures_logged (on_kline_tg compute_trend ex_live_tg ex_event False) = 1
   \<and> last_alert_direction (stream_after_tg (on_kline_tg compute_trend ex_live_tg ex_event False))
        = Some (- 1)"
  by (simp add: ex_on_kline_send_fails ex_on_kline_send_ok ex_on_kline_tg_send_fails
      ex_live_fields)

end
